theory Spec2Isabelle
  imports Complex_Main "HOL-Library.AList"
begin

section \<open>JavaScript Numbers\<close>

text \<open>
  The price calculator is TypeScript; its numbers are JavaScript Numbers, that is IEEE 754
  binary64 values. A finite Number is modelled as the rational it is exactly equal to,
  and every arithmetic operation rounds its exact result to the nearest binary64 value, a
  tie going to the even significand (\<open>b64\<close>). The one thing left out is the sign of zero:
  both zeros are \<open>Fin 0\<close>. The program cannot tell them apart: it prints a Number only
  through \<open>toFixed\<close> and string conversion, which print both as zero, it tests a Number
  only by truthiness and comparison, and it never divides by a zero that could be
  negative (its divisors are \<open>100\<close>, a list length, a price already tested positive, and
  \<open>1 - t / 100\<close>, which is \<open>+0\<close> when it is zero).
\<close>

datatype jsnum = Fin rat | PInf | NInf | NaN

definition pow2 :: "int \<Rightarrow> rat" where
  "pow2 e = (if 0 \<le> e then 2 ^ nat e else 1 / 2 ^ nat (- e))"

definition pow10 :: "int \<Rightarrow> rat" where
  "pow10 e = (if 0 \<le> e then 10 ^ nat e else 1 / 10 ^ nat (- e))"

text \<open>The number of digits of a positive integer in base \<open>b\<close>.\<close>

function ndigits :: "int \<Rightarrow> int \<Rightarrow> int" where
  "ndigits b p = (if p < b \<or> b < 2 then 1 else 1 + ndigits b (p div b))"
  by pat_completeness auto
termination
  by (relation "measure (\<lambda>(b, p). nat p)")
     (auto simp: pos_imp_zdiv_pos_iff intro!: int_div_less_self)

declare ndigits.simps [simp del]

text \<open>
  \<open>\<lfloor>log\<^sub>2 x\<rfloor>\<close> and \<open>\<lfloor>log\<^sub>1\<^sub>0 x\<rfloor>\<close> of a positive rational, from the digit counts of its
  numerator and denominator.
\<close>

definition ilog2 :: "rat \<Rightarrow> int" where
  "ilog2 x =
     (let d = ndigits 2 (fst (quotient_of x)) - ndigits 2 (snd (quotient_of x))
      in if pow2 d \<le> x then d else d - 1)"

definition ilog10 :: "rat \<Rightarrow> int" where
  "ilog10 x =
     (let d = ndigits 10 (fst (quotient_of x)) - ndigits 10 (snd (quotient_of x))
      in if pow10 d \<le> x then d else d - 1)"

definition round_half_even :: "rat \<Rightarrow> int" where
  "round_half_even r =
     (let n = \<lfloor>r\<rfloor>; d = r - of_int n
      in if d < 1 / 2 then n else if 1 / 2 < d then n + 1
         else if even n then n else n + 1)"

text \<open>
  Rounding to binary64: the value is written as \<open>n * 2^(e - 52)\<close> with \<open>e\<close> the binary
  exponent of \<open>x\<close>, not below that of the subnormal numbers, and \<open>n\<close> the integer
  nearest to \<open>x / 2^(e - 52)\<close>, so of at most 53 bits. It overflows to an infinity when
  the rounded value reaches \<open>2^1024\<close>: the exponent is above 1023, or it is 1023 and
  the rounding has carried \<open>n\<close> to \<open>2^53\<close>.
\<close>

definition b64 :: "rat \<Rightarrow> jsnum" where
  "b64 x =
     (if x = 0 then Fin 0
      else
        let e = max (ilog2 \<bar>x\<bar>) (- 1022);
            ulp = pow2 (e - 52);
            n = round_half_even (x / ulp)
        in if 1023 < e \<or> (e = 1023 \<and> \<bar>n\<bar> = 2 ^ 53)
           then (if x < 0 then NInf else PInf)
           else Fin (of_int n * ulp))"

fun js_neg :: "jsnum \<Rightarrow> jsnum" where
  "js_neg (Fin a) = Fin (- a)"
| "js_neg PInf = NInf"
| "js_neg NInf = PInf"
| "js_neg NaN = NaN"

fun js_add :: "jsnum \<Rightarrow> jsnum \<Rightarrow> jsnum" where
  "js_add NaN y = NaN"
| "js_add x NaN = NaN"
| "js_add (Fin a) (Fin b) = b64 (a + b)"
| "js_add PInf NInf = NaN"
| "js_add NInf PInf = NaN"
| "js_add PInf y = PInf"
| "js_add NInf y = NInf"
| "js_add (Fin a) y = y"

definition js_sub :: "jsnum \<Rightarrow> jsnum \<Rightarrow> jsnum" where
  "js_sub x y = js_add x (js_neg y)"

text \<open>The infinity of a given sign (\<open>True\<close> for negative).\<close>

definition js_inf :: "bool \<Rightarrow> jsnum" where
  "js_inf negative = (if negative then NInf else PInf)"

fun js_mul :: "jsnum \<Rightarrow> jsnum \<Rightarrow> jsnum" where
  "js_mul NaN y = NaN"
| "js_mul x NaN = NaN"
| "js_mul (Fin a) (Fin b) = b64 (a * b)"
| "js_mul (Fin a) y = (if a = 0 then NaN else js_inf ((a < 0) \<noteq> (y = NInf)))"
| "js_mul x (Fin b) = (if b = 0 then NaN else js_inf ((x = NInf) \<noteq> (b < 0)))"
| "js_mul x y = js_inf ((x = NInf) \<noteq> (y = NInf))"

fun js_div :: "jsnum \<Rightarrow> jsnum \<Rightarrow> jsnum" where
  "js_div NaN y = NaN"
| "js_div x NaN = NaN"
| "js_div (Fin a) (Fin b) =
     (if b = 0 then (if a = 0 then NaN else js_inf (a < 0)) else b64 (a / b))"
| "js_div (Fin a) y = Fin 0"
| "js_div x (Fin b) = js_inf ((x = NInf) \<noteq> (b < 0))"
| "js_div x y = NaN"

text \<open>\<open>x > y\<close> and \<open>x < y\<close>: false as soon as one side is NaN.\<close>

fun js_gt :: "jsnum \<Rightarrow> jsnum \<Rightarrow> bool" where
  "js_gt NaN y = False"
| "js_gt x NaN = False"
| "js_gt (Fin a) (Fin b) = (b < a)"
| "js_gt PInf y = (y \<noteq> PInf)"
| "js_gt NInf y = False"
| "js_gt (Fin a) y = (y = NInf)"

definition js_lt :: "jsnum \<Rightarrow> jsnum \<Rightarrow> bool" where
  "js_lt x y = js_gt y x"

text \<open>
  \<open>Math.round\<close>: the nearest integer, a tie going towards \<open>+\<infinity>\<close>. The result is exact:
  a binary64 value of size \<open>2^52\<close> or more is an integer already.
\<close>

fun math_round :: "jsnum \<Rightarrow> jsnum" where
  "math_round (Fin a) = Fin (of_int \<lfloor>a + 1 / 2\<rfloor>)"
| "math_round x = x"

text \<open>Truthiness of a Number, and \<open>v || 0\<close> on a Number that may be undefined.\<close>

definition truthy_num :: "jsnum \<Rightarrow> bool" where
  "truthy_num x = (x \<noteq> NaN \<and> x \<noteq> Fin 0)"

fun or_zero :: "jsnum option \<Rightarrow> jsnum" where
  "or_zero None = Fin 0"
| "or_zero (Some x) = (if truthy_num x then x else Fin 0)"

section \<open>Text\<close>

text \<open>
  Strings are lists of 8-bit characters, read as the code units below 256. White space
  (\<open>\s\<close> in a regular expression, and what \<open>trim\<close>, \<open>parseFloat\<close> and the conversion
  of text to a Number skip) is then tab, line feed, vertical tab, form feed, carriage
  return, space and the no-break space.
\<close>

definition is_js_space :: "char \<Rightarrow> bool" where
  "is_js_space c = ((of_char c :: nat) \<in> {9, 10, 11, 12, 13, 32, 160})"

definition is_digit :: "char \<Rightarrow> bool" where
  "is_digit c = (48 \<le> (of_char c :: int) \<and> (of_char c :: int) \<le> 57)"

definition digit_val :: "char \<Rightarrow> int" where
  "digit_val c = of_char c - 48"

definition trim :: "string \<Rightarrow> string" where
  "trim s = rev (dropWhile is_js_space (rev (dropWhile is_js_space s)))"

definition starts_with :: "string \<Rightarrow> string \<Rightarrow> bool" where
  "starts_with p s = (take (length p) s = p)"

text \<open>\<open>s.replace(pat, rep)\<close> with a string pattern: the first occurrence only.\<close>

fun replace_first :: "string \<Rightarrow> string \<Rightarrow> string \<Rightarrow> string" where
  "replace_first pat rep [] = (if pat = [] then rep else [])"
| "replace_first pat rep (c # cs) =
     (if starts_with pat (c # cs) then rep @ drop (length pat) (c # cs)
      else c # replace_first pat rep cs)"

text \<open>\<open>xs.join(sep)\<close> on an array of strings.\<close>

fun join :: "string \<Rightarrow> string list \<Rightarrow> string" where
  "join sep [] = []"
| "join sep [x] = x"
| "join sep (x # y # ys) = x @ sep @ join sep (y # ys)"

subsection \<open>Decimal digits\<close>

definition digit_char :: "int \<Rightarrow> char" where
  "digit_char d = ''0123456789'' ! nat d"

function dec_digits :: "int \<Rightarrow> string" where
  "dec_digits n =
     (if n < 10 then [digit_char n] else dec_digits (n div 10) @ [digit_char (n mod 10)])"
  by pat_completeness auto
termination
  by (relation "measure nat") auto

declare dec_digits.simps [simp del]

definition digits_value :: "string \<Rightarrow> int" where
  "digits_value ds = foldl (\<lambda>a c. 10 * a + digit_val c) 0 ds"

subsection \<open>Number to text\<close>

text \<open>
  \<open>Number::toString\<close> writes the shortest decimal that reads back as the Number: integers
  \<open>s\<close>, \<open>k\<close>, \<open>n\<close> with \<open>k\<close> digits in \<open>s\<close>, the value \<open>s * 10^(n - k)\<close> rounding to
  the Number, \<open>k\<close> least and then the value nearest to the Number. For a given \<open>k\<close> the
  candidates are the two multiples of \<open>10^(n - k)\<close> around the Number and the next power
  of ten.
\<close>

definition digit_candidates :: "rat \<Rightarrow> int \<Rightarrow> (int \<times> int) list" where
  "digit_candidates x k =
     (let e = ilog10 x;
          lo = \<lfloor>x / pow10 (e + 1 - k)\<rfloor>
      in filter (\<lambda>(s, n). pow10 (k - 1) \<le> of_int s \<and> of_int s < pow10 k
                           \<and> b64 (of_int s * pow10 (n - k)) = Fin x)
           [(lo, e + 1), (lo + 1, e + 1), (10 ^ nat (k - 1), e + 2)])"

fun pick_closest :: "rat \<Rightarrow> int \<Rightarrow> (int \<times> int) list \<Rightarrow> (int \<times> int) option" where
  "pick_closest x k [] = None"
| "pick_closest x k (c # cs) =
     (case pick_closest x k cs of
        None \<Rightarrow> Some c
      | Some d \<Rightarrow>
          let dc = \<bar>of_int (fst c) * pow10 (snd c - k) - x\<bar>;
              dd = \<bar>of_int (fst d) * pow10 (snd d - k) - x\<bar>
          in if dc < dd \<or> (dc = dd \<and> even (fst c)) then Some c else Some d)"

text \<open>
  The triple \<open>(s, k, n)\<close>. Seventeen digits always identify a binary64 value; the last
  case is there for a rational that is no binary64 value.
\<close>

definition shortest_digits :: "rat \<Rightarrow> int \<times> int \<times> int" where
  "shortest_digits x =
     (case List.find (\<lambda>k. digit_candidates x k \<noteq> []) [1..17] of
        None \<Rightarrow> (\<lfloor>x / pow10 (ilog10 x + 1 - 17)\<rfloor>, 17, ilog10 x + 1)
      | Some k \<Rightarrow>
          (case pick_closest x k (digit_candidates x k) of
             None \<Rightarrow> (\<lfloor>x / pow10 (ilog10 x + 1 - 17)\<rfloor>, 17, ilog10 x + 1)
           | Some (s, n) \<Rightarrow> (s, k, n)))"

definition positive_text :: "rat \<Rightarrow> string" where
  "positive_text x =
     (let (s, k, n) = shortest_digits x;
          ds = dec_digits s
      in if k \<le> n \<and> n \<le> 21 then ds @ replicate (nat (n - k)) (CHR ''0'')
         else if 0 < n \<and> n \<le> 21 then take (nat n) ds @ ''.'' @ drop (nat n) ds
         else if - 6 < n \<and> n \<le> 0 then ''0.'' @ replicate (nat (- n)) (CHR ''0'') @ ds
         else
           let e = n - 1;
               es = (if e < 0 then ''-'' else ''+'') @ dec_digits \<bar>e\<bar>
           in if k = 1 then ds @ ''e'' @ es
              else take 1 ds @ ''.'' @ drop 1 ds @ ''e'' @ es)"

fun number_text :: "jsnum \<Rightarrow> string" where
  "number_text NaN = ''NaN''"
| "number_text PInf = ''Infinity''"
| "number_text NInf = ''-Infinity''"
| "number_text (Fin x) =
     (if x = 0 then ''0'' else (if x < 0 then ''-'' else []) @ positive_text \<bar>x\<bar>)"

subsection \<open>Number.prototype.toFixed\<close>

text \<open>
  \<open>x.toFixed(f)\<close>: a Number that is not finite is written as \<open>Number::toString\<close> writes
  it. Otherwise the sign, and then, from \<open>10^21\<close> on, what \<open>Number::toString\<close> writes,
  and below that the integer \<open>n\<close> nearest to \<open>|x| * 10^f\<close> (the larger one on a tie)
  written in decimal, padded with zeros to \<open>f + 1\<close> digits, with the point before the
  last \<open>f\<close> digits.
\<close>

fun toFixed :: "nat \<Rightarrow> jsnum \<Rightarrow> string" where
  "toFixed f NaN = ''NaN''"
| "toFixed f PInf = ''Infinity''"
| "toFixed f NInf = ''-Infinity''"
| "toFixed f (Fin x) =
     (let s = (if x < 0 then ''-'' else '''');
          ax = (if x < 0 then - x else x);
          m = (if 10 ^ 21 \<le> ax then number_text (Fin ax)
               else
                 let n = \<lfloor>ax * 10 ^ f + 1 / 2\<rfloor>;
                     m = dec_digits n;
                     m = (if length m \<le> f
                          then replicate (f + 1 - length m) (CHR ''0'') @ m else m);
                     k = length m
                 in if f \<noteq> 0 then take (k - f) m @ ''.'' @ drop (k - f) m else m)
      in s @ m)"

declare toFixed.simps [simp del]

subsection \<open>Text to Number\<close>

text \<open>
  The exponent of an \<open>ExponentPart\<close> at the head of the text (\<open>e\<close> or \<open>E\<close>, an optional
  sign and at least one digit) and the text after it. Anything else is no exponent part:
  exponent 0, nothing consumed.
\<close>

definition exponent_split :: "string \<Rightarrow> int \<times> string" where
  "exponent_split r =
     (case r of
        [] \<Rightarrow> (0, r)
      | c # r1 \<Rightarrow>
          if c = CHR ''e'' \<or> c = CHR ''E''
          then (let negative = (r1 \<noteq> [] \<and> hd r1 = CHR ''-'');
                    r2 = (if r1 \<noteq> [] \<and> (hd r1 = CHR ''-'' \<or> hd r1 = CHR ''+'')
                          then tl r1 else r1);
                    ds = takeWhile is_digit r2
                in if ds = [] then (0, r)
                   else (if negative then - digits_value ds else digits_value ds,
                         dropWhile is_digit r2))
          else (0, r))"

text \<open>
  The longest prefix that is a \<open>StrUnsignedDecimalLiteral\<close> (\<open>Infinity\<close>, or digits with an
  optional point and fraction, or a point and a fraction; then the optional exponent
  part): its value, NaN when there is no such prefix, and the text after it.
\<close>

definition unsigned_split :: "string \<Rightarrow> jsnum \<times> string" where
  "unsigned_split s =
     (if starts_with ''Infinity'' s then (PInf, drop 8 s)
      else
        let ip = takeWhile is_digit s;
            r1 = dropWhile is_digit s;
            has_point = (r1 \<noteq> [] \<and> hd r1 = CHR ''.'');
            fp = (if has_point then takeWhile is_digit (tl r1) else []);
            r2 = (if has_point then dropWhile is_digit (tl r1) else r1)
        in if ip = [] \<and> fp = [] then (NaN, s)
           else (b64 (of_int (digits_value (ip @ fp)) / 10 ^ length fp
                        * pow10 (fst (exponent_split r2))),
                 snd (exponent_split r2)))"

definition unsigned_literal :: "string \<Rightarrow> jsnum" where
  "unsigned_literal s = fst (unsigned_split s)"

definition parseFloat :: "string \<Rightarrow> jsnum" where
  "parseFloat str =
     (let t = dropWhile is_js_space str in
      case t of
        [] \<Rightarrow> NaN
      | c # r \<Rightarrow>
          if c = CHR ''-'' then js_neg (unsigned_literal r)
          else if c = CHR ''+'' then unsigned_literal r
          else unsigned_literal t)"




section \<open>Values of a row object\<close>

text \<open>
  What a key of a row object can hold: text, a Number, or the array of surplus cells the
  parser puts under \<open>__parsed_extra\<close>. An absent key (undefined) is \<open>None\<close>.
\<close>

datatype jsval = JStr string | JNum jsnum | JArr "string list"

definition truthy_val :: "jsval option \<Rightarrow> bool" where
  "truthy_val v =
     (case v of
        None \<Rightarrow> False
      | Some (JStr s) \<Rightarrow> s \<noteq> []
      | Some (JNum n) \<Rightarrow> truthy_num n
      | Some (JArr xs) \<Rightarrow> True)"

text \<open>\<open>String(v)\<close> and \<open>Number(v)\<close>; an array goes through its \<open>join(',')\<close>.\<close>

fun to_string :: "jsval \<Rightarrow> string" where
  "to_string (JStr s) = s"
| "to_string (JNum n) = number_text n"
| "to_string (JArr xs) = join '','' xs"




section \<open>Rows and the pricing pass\<close>

text \<open>
  \<open>interface ProductRow\<close>. The code always stores text in \<open>sku\<close> and \<open>title\<close> and a
  Number in \<open>current_price\<close> and \<open>cost_price\<close>. The three derived keys hold what the
  object holds under them: nothing, the Number of a pricing pass, or the text of a column
  of that name in the uploaded file. The index signature \<open>[key: string]: any\<close> is the
  association list \<open>extra\<close> of the columns of the uploaded file and of
  \<open>new_price_shopify\<close>; a column named like one of the seven keys above stays in the
  list and is shadowed by the field.
\<close>

record ProductRow =
  sku :: string
  title :: string
  current_price :: jsnum
  cost_price :: jsnum
  new_price :: "jsval option"
  margin_percent :: "jsval option"
  price_change :: "jsval option"
  extra :: "(string \<times> jsval) list"

datatype markup_type = Margin | Markup

text \<open>\<open>Math.round(x * 100) / 100\<close>\<close>

definition round_cents :: "jsnum \<Rightarrow> jsnum" where
  "round_cents x = js_div (math_round (js_mul x (Fin 100))) (Fin 100)"

text \<open>
  The body of the \<open>data.map\<close> callback of \<open>calculatePrices\<close> in src/app/page.tsx.
  (The first value of \<open>newPrice\<close>, \<open>row.current_price\<close>, is never read: the zero-cost
  branch returns before, the other branch assigns the formula.)
\<close>

definition calc_row :: "jsnum \<Rightarrow> markup_type \<Rightarrow> ProductRow \<Rightarrow> ProductRow" where
  "calc_row target method row =
     (let cost = or_zero (Some (cost_price row)) in
      if cost = Fin 0
      then row\<lparr>new_price := Some (JNum (current_price row)),
               margin_percent := Some (JNum (Fin 0)),
               price_change := Some (JNum (Fin 0))\<rparr>
      else
        let newPrice =
              (if method = Margin
               then js_div cost (js_sub (Fin 1) (js_div target (Fin 100)))
               else js_mul cost (js_add (Fin 1) (js_div target (Fin 100))));
            newPrice = round_cents newPrice;
            marginAmount = js_sub newPrice cost;
            marginPercent =
              (if js_gt newPrice (Fin 0)
               then js_mul (js_div marginAmount newPrice) (Fin 100) else Fin 0)
        in row\<lparr>new_price := Some (JNum newPrice),
                margin_percent := Some (JNum (round_cents marginPercent)),
                price_change :=
                  Some (JNum (round_cents (js_sub newPrice (current_price row)))),
                extra := AList.update ''new_price_shopify'' (JStr (toFixed 2 newPrice))
                           (extra row)\<rparr>)"

text \<open>
  The same callback in src/page.tsx: there is no test of \<open>cost === 0\<close>, every row goes
  through the formula.
\<close>

definition calc_row_root :: "jsnum \<Rightarrow> markup_type \<Rightarrow> ProductRow \<Rightarrow> ProductRow" where
  "calc_row_root target method row =
     (let cost = or_zero (Some (cost_price row));
          newPrice =
            (if method = Margin
             then js_div cost (js_sub (Fin 1) (js_div target (Fin 100)))
             else js_mul cost (js_add (Fin 1) (js_div target (Fin 100))));
          newPrice = round_cents newPrice;
          marginAmount = js_sub newPrice cost;
          marginPercent =
            (if js_gt newPrice (Fin 0)
             then js_mul (js_div marginAmount newPrice) (Fin 100) else Fin 0)
      in row\<lparr>new_price := Some (JNum newPrice),
              margin_percent := Some (JNum (round_cents marginPercent)),
              price_change :=
                Some (JNum (round_cents (js_sub newPrice (current_price row)))),
              extra := AList.update ''new_price_shopify'' (JStr (toFixed 2 newPrice))
                         (extra row)\<rparr>)"

section \<open>Session state\<close>

text \<open>
  The \<open>useState\<close> cells of the component. src/page.tsx has the same cells without
  \<open>error\<close>; its operations are modelled on the same record and leave that field alone.
\<close>

record session =
  data :: "ProductRow list"
  headers :: "string list"
  marginTarget :: jsnum
  markupType :: markup_type
  originalFileName :: string
  error :: string

definition calculatePrices :: "session \<Rightarrow> session" where
  "calculatePrices s = s\<lparr>data := map (calc_row (marginTarget s) (markupType s)) (data s)\<rparr>"

definition calculatePrices_root :: "session \<Rightarrow> session" where
  "calculatePrices_root s =
     s\<lparr>data := map (calc_row_root (marginTarget s) (markupType s)) (data s)\<rparr>"

definition resetAll :: "session \<Rightarrow> session" where
  "resetAll s = s\<lparr>data := [], headers := [], originalFileName := [], error := []\<rparr>"

section \<open>Ingestion (src/app/page.tsx)\<close>

text \<open>
  An uploaded file as the parser sees it: its name, the names of the header line (after
  \<open>transformHeader\<close> has trimmed them) and the cells of each non-empty line after it.
  With \<open>header: true\<close> and \<open>dynamicTyping: false\<close> the parser makes one object for each
  line: cell \<open>j\<close> goes under header name \<open>j\<close> as text, a later cell replacing an
  earlier one under the same name; a line shorter than the header leaves the last names
  out, and the cells beyond the header are collected under \<open>__parsed_extra\<close>. (A header
  with a column of that very name is not modelled.)
\<close>

type_synonym raw_row = "(string \<times> jsval) list"

record csv_file =
  file_name :: string
  file_header :: "string list"
  file_lines :: "string list list"

definition papa_row :: "string list \<Rightarrow> string list \<Rightarrow> raw_row" where
  "papa_row header cells =
     (let named = foldl (\<lambda>row (k, v). AList.update k (JStr v) row) [] (zip header cells);
          surplus = drop (length header) cells
      in if surplus = [] then named
         else AList.update ''__parsed_extra'' (JArr surplus) named)"

definition file_rows :: "csv_file \<Rightarrow> raw_row list" where
  "file_rows f = map (papa_row (file_header f)) (file_lines f)"

definition stripped_char :: "char \<Rightarrow> bool" where
  "stripped_char c = (c \<in> {CHR ''$'', CHR '','', CHR 0x22, CHR 0x27} \<or> is_js_space c)"

text \<open>\<open>cleanNumber\<close>, on a value that may be undefined.\<close>

definition cleanNumber :: "jsval option \<Rightarrow> jsnum" where
  "cleanNumber v =
     (case v of
        None \<Rightarrow> Fin 0
      | Some w \<Rightarrow>
          if \<not> truthy_val (Some w) then Fin 0
          else (let cleaned = filter (\<lambda>c. \<not> stripped_char c) (to_string w);
                    num = parseFloat cleaned
                in if num = NaN then Fin 0 else num))"

definition skuField :: string where "skuField = ''Variant SKU''"
definition priceField :: string where "priceField = ''Variant Price''"
definition costField :: string where "costField = ''Cost per item''"
definition titleField :: string where "titleField = ''Title''"

text \<open>
  The \<open>parsed.map\<close> callback: one parsed row and its 0-based index to a ProductRow. The
  spread \<open>...row\<close> comes first, so the three derived keys hold what the file has under
  columns of their names, and the four keys written after it replace such columns.
\<close>

definition ingest_row :: "nat \<Rightarrow> raw_row \<Rightarrow> ProductRow" where
  "ingest_row index row =
     (let rawPrice = map_of row priceField;
          rawCost = map_of row costField;
          rawSku = map_of row skuField;
          rawTitle = map_of row titleField;
          cleanPrice = cleanNumber rawPrice;
          cleanCost = cleanNumber rawCost
      in \<lparr>sku = (case rawSku of
                   None \<Rightarrow> ''ROW-'' @ dec_digits (int index + 1)
                 | Some w \<Rightarrow> if truthy_val (Some w) then trim (to_string w)
                              else ''ROW-'' @ dec_digits (int index + 1)),
          title = (case rawTitle of
                     None \<Rightarrow> ''Unknown Product''
                   | Some w \<Rightarrow> if truthy_val (Some w) then trim (to_string w)
                                else ''Unknown Product''),
          current_price = cleanPrice,
          cost_price = cleanCost,
          new_price = map_of row ''new_price'',
          margin_percent = map_of row ''margin_percent'',
          price_change = map_of row ''price_change'',
          extra = row\<rparr>)"

text \<open>The \<open>filter\<close> callback: \<open>row.sku && !row.sku.startsWith('ROW-')\<close>.\<close>

definition keeps_row :: "ProductRow \<Rightarrow> bool" where
  "keeps_row row = (sku row \<noteq> [] \<and> \<not> starts_with ''ROW-'' (sku row))"

definition process_rows :: "raw_row list \<Rightarrow> ProductRow list" where
  "process_rows parsed =
     filter keeps_row (map (\<lambda>(index, row). ingest_row index row) (enumerate 0 parsed))"

text \<open>
  The three ways an upload is refused, and the message \<open>setError\<close> receives for each.
  \<open>MissingColumns\<close> carries the missing names and the columns that were found.
\<close>

datatype upload_error =
    EmptyDataset
  | MissingColumns "string list" "string list"
  | NoValidRows

fun error_text :: "upload_error \<Rightarrow> string" where
  "error_text EmptyDataset = ''CSV file is empty''"
| "error_text (MissingColumns missing found) =
     ''Missing columns: '' @ join '', '' missing @ ''. Found: '' @ join '', '' found"
| "error_text NoValidRows =
     ''No valid products found. Check your CSV has data in the Variant SKU column.''"

text \<open>
  The \<open>complete\<close> callback of \<open>Papa.parse\<close>, statement by statement. It returns the
  refusal, if any, with the state as the calls of the setters leave it. The columns are
  \<open>Object.keys(parsed[0])\<close>, the keys of the first parsed row.
\<close>

definition parse_complete :: "raw_row list \<Rightarrow> session \<Rightarrow> upload_error option \<times> session" where
  "parse_complete parsed s =
     (case parsed of
        [] \<Rightarrow> (Some EmptyDataset, s\<lparr>error := error_text EmptyDataset\<rparr>)
      | firstRow # _ \<Rightarrow>
          let columns = map fst firstRow;
              missingColumns =
                (if skuField \<notin> set columns then [skuField] else []) @
                (if priceField \<notin> set columns then [priceField] else [])
          in if length missingColumns > 0
             then (Some (MissingColumns missingColumns columns),
                   s\<lparr>error := error_text (MissingColumns missingColumns columns)\<rparr>)
             else
               let s = s\<lparr>headers := columns\<rparr>;
                   processed = process_rows parsed
               in if length processed = 0
                  then (Some NoValidRows, s\<lparr>error := error_text NoValidRows\<rparr>)
                  else (None, s\<lparr>data := processed\<rparr>))"

text \<open>\<open>handleFileUpload\<close> returns at once when the event carries no file.\<close>

definition handleFileUpload :: "csv_file option \<Rightarrow> session \<Rightarrow> upload_error option \<times> session" where
  "handleFileUpload file s =
     (case file of
        None \<Rightarrow> (None, s)
      | Some f \<Rightarrow>
          parse_complete (file_rows f)
            (s\<lparr>error := [],
               originalFileName := replace_first ''.csv'' [] (file_name f)\<rparr>))"

section \<open>Export in the import format of the shop\<close>

definition to_lower :: "char \<Rightarrow> char" where
  "to_lower c =
     (if 65 \<le> (of_char c :: nat) \<and> (of_char c :: nat) \<le> 90
      then char_of ((of_char c :: nat) + 32) else c)"

definition lower_alnum :: "char \<Rightarrow> bool" where
  "lower_alnum c =
     ((97 \<le> (of_char c :: nat) \<and> (of_char c :: nat) \<le> 122) \<or> is_digit c)"

text \<open>
  \<open>replace(/[^a-z0-9]+/g, '-')\<close>: every maximal run of other characters becomes one
  hyphen. The flag says that the run the scan is in has had its hyphen.
\<close>

fun hyphenate :: "bool \<Rightarrow> string \<Rightarrow> string" where
  "hyphenate in_run [] = []"
| "hyphenate in_run (c # cs) =
     (if lower_alnum c then c # hyphenate False cs
      else if in_run then hyphenate True cs
      else CHR ''-'' # hyphenate True cs)"

record shopify_row =
  Handle :: jsval
  Title :: string
  Variant_SKU :: string
  Variant_Price :: "jsval option"
  Cost_per_item :: jsnum

text \<open>The \<open>data.map\<close> callback of \<open>downloadShopifyFormat\<close>.\<close>

definition shopify_of :: "ProductRow \<Rightarrow> shopify_row" where
  "shopify_of row =
     \<lparr>Handle = (case map_of (extra row) ''Handle'' of
                  None \<Rightarrow> JStr (hyphenate False (map to_lower (sku row)))
                | Some h \<Rightarrow> if truthy_val (Some h) then h
                            else JStr (hyphenate False (map to_lower (sku row)))),
      Title = title row,
      Variant_SKU = sku row,
      Variant_Price = (if truthy_val (map_of (extra row) ''new_price_shopify'')
                       then map_of (extra row) ''new_price_shopify''
                       else new_price row),
      Cost_per_item = cost_price row\<rparr>"

definition downloadShopifyFormat :: "session \<Rightarrow> shopify_row list" where
  "downloadShopifyFormat s = map shopify_of (data s)"

section \<open>Summary figures\<close>



section \<open>Example inputs\<close>

definition row_cost60 :: ProductRow where
  "row_cost60 =
     \<lparr>sku = ''TEE-01'', title = ''T-shirt'', current_price = Fin 90, cost_price = Fin 60,
      new_price = None, margin_percent = None, price_change = None, extra = []\<rparr>"

definition row_nocost :: ProductRow where
  "row_nocost =
     \<lparr>sku = ''MUG-01'', title = ''Mug'', current_price = Fin 25, cost_price = Fin 0,
      new_price = None, margin_percent = None, price_change = None, extra = []\<rparr>"

definition row_halfprice :: ProductRow where
  "row_halfprice =
     \<lparr>sku = ''PEN-02'', title = ''Pen'', current_price = Fin (25 / 2), cost_price = Fin 0,
      new_price = None, margin_percent = None, price_change = None, extra = []\<rparr>"

text \<open>A row whose cost is the Number \<open>0.3\<close>, and one whose cost is the Number \<open>17.15\<close>.\<close>

definition row_cost030 :: ProductRow where
  "row_cost030 =
     \<lparr>sku = ''CLIP-03'', title = ''Clip'', current_price = Fin 1, cost_price = b64 (3 / 10),
      new_price = None, margin_percent = None, price_change = None, extra = []\<rparr>"

definition row_cost1715 :: ProductRow where
  "row_cost1715 =
     \<lparr>sku = ''CAP-04'', title = ''Cap'', current_price = Fin 20, cost_price = b64 (343 / 20),
      new_price = None, margin_percent = None, price_change = None, extra = []\<rparr>"

text \<open>A row whose cost is not a number, as \<open>parseFloat\<close> leaves it in src/page.tsx.\<close>

definition row_nancost :: ProductRow where
  "row_nancost =
     \<lparr>sku = ''BAG-05'', title = ''Bag'', current_price = Fin 25, cost_price = NaN,
      new_price = None, margin_percent = None, price_change = None, extra = []\<rparr>"



definition session_loaded :: session where
  "session_loaded =
     \<lparr>data = [row_cost60],
      headers = [''Variant SKU'', ''Variant Price'', ''Cost per item''],
      marginTarget = Fin 40, markupType = Margin,
      originalFileName = ''spring'', error = []\<rparr>"


definition file_blank_sku :: csv_file where
  "file_blank_sku =
     \<lparr>file_name = ''autumn.csv'',
      file_header = [''Variant SKU'', ''Variant Price''],
      file_lines = [['''', ''5'']]\<rparr>"

definition file_row_prefix :: csv_file where
  "file_row_prefix =
     \<lparr>file_name = ''boats.csv'',
      file_header = [''Variant SKU'', ''Variant Price''],
      file_lines = [[''ROW-BOAT-7'', ''120'']]\<rparr>"

definition file_negative :: csv_file where
  "file_negative =
     \<lparr>file_name = ''returns.csv'',
      file_header = [''Variant SKU'', ''Variant Price'', ''Cost per item''],
      file_lines = [[''A1'', ''-5'', ''$-2.50'']]\<rparr>"



section \<open>Properties of the pricing pass\<close>

text \<open>What the pass of src/app/page.tsx stores for a row whose cost is a number other than 0.\<close>

lemma round_cents_Fin:
  assumes "js_mul (Fin x) (Fin 100) = Fin y"
  shows "round_cents (Fin x) = b64 (of_int \<lfloor>y + 1 / 2\<rfloor> / 100)"
  using assms by (simp add: round_cents_def)

lemma calc_row_priced:
  assumes "cost_price row = Fin c" and "c \<noteq> 0"
  shows "new_price (calc_row t m row) =
      Some (JNum (round_cents (if m = Margin
               then js_div (Fin c) (js_sub (Fin 1) (js_div t (Fin 100)))
               else js_mul (Fin c) (js_add (Fin 1) (js_div t (Fin 100))))))"
  using assms by (simp add: calc_row_def truthy_num_def Let_def)

lemma calc_row_margin:
  assumes "cost_price row = Fin c" and "c \<noteq> 0"
  shows "margin_percent (calc_row t m row) =
      Some (JNum (let newPrice = round_cents (if m = Margin
               then js_div (Fin c) (js_sub (Fin 1) (js_div t (Fin 100)))
               else js_mul (Fin c) (js_add (Fin 1) (js_div t (Fin 100))))
         in round_cents (if js_gt newPrice (Fin 0)
               then js_mul (js_div (js_sub newPrice (Fin c)) newPrice) (Fin 100)
               else Fin 0)))"
  using assms by (simp add: calc_row_def truthy_num_def Let_def)

text \<open>
  C1 as stated fails. The pass computes in binary64: every operation rounds its exact
  result to the nearest Number, and \<open>Math.round(x * 100) / 100\<close> rounds the product so
  obtained, not the value of the formula. The cost written \<open>0.30\<close> is the Number just
  below 3/10; at a markup of 5 percent the value of \<open>cost * (1 + 5/100)\<close> lies below
  0.315, which rounded to 2 decimals is 0.31, and the pass gives the Number written 0.32.
  The cost written \<open>17.15\<close> at a markup of 10 percent has the value 18.865 in decimal
  arithmetic, which rounded to 2 decimals is 18.87, and the pass gives the Number written
  18.86.
\<close>

theorem pricing_formula_counterexample:
  "cost_price row_cost030 = Fin (5404319552844595 / 18014398509481984)
   \<and> (5404319552844595 / 18014398509481984 :: rat) * (1 + 5 / 100) < 315 / 1000
   \<and> new_price (calc_row (Fin 5) Markup row_cost030) = Some (JNum (b64 (32 / 100)))
   \<and> b64 (32 / 100) \<noteq> b64 (31 / 100)
   \<and> cost_price row_cost1715 = b64 (1715 / 100)
   \<and> (1715 / 100 :: rat) * (1 + 10 / 100) = 18865 / 1000
   \<and> new_price (calc_row (Fin 10) Markup row_cost1715) = Some (JNum (b64 (1886 / 100)))
   \<and> b64 (1886 / 100) \<noteq> b64 (1887 / 100)"
  by code_simp

text \<open>
  C1 as amended. For a row with a finite cost \<open>c > 0\<close> and a finite target \<open>p\<close> the pass
  of src/app/page.tsx evaluates the formula in binary64, every operation rounded to the
  nearest Number (\<open>b64\<close>). Under the margin method the steps are \<open>a = p / 100\<close>,
  \<open>b = 1 - a\<close>, \<open>x = c / b\<close> and \<open>y = x * 100\<close>; under the markup method they are
  \<open>a = p / 100\<close>, \<open>b = 1 + a\<close>, \<open>x = c * b\<close> and \<open>y = x * 100\<close>. As long as no step
  overflows, the new price is the Number nearest to \<open>n / 100\<close>, where \<open>n\<close> is the whole
  number nearest to \<open>y\<close> (a tie going up). Under the margin method a target with
  \<open>p / 100 = 1\<close> divides by zero and gives Infinity. With cost 60 and target 40 the
  margin method gives new price 100 and realized margin 40, the markup method new price
  84 and realized margin the Number written 28.57.
\<close>

theorem pricing_formula:
  assumes "cost_price row = Fin c" and "0 < c"
  shows "(\<forall>a b x y. b64 (p / 100) = Fin a \<and> b64 (1 - a) = Fin b \<and> b \<noteq> 0
              \<and> b64 (c / b) = Fin x \<and> b64 (x * 100) = Fin y
            \<longrightarrow> new_price (calc_row (Fin p) Margin row)
                  = Some (JNum (b64 (of_int \<lfloor>y + 1 / 2\<rfloor> / 100))))
       \<and> (b64 (p / 100) = Fin 1 \<longrightarrow> new_price (calc_row (Fin p) Margin row) = Some (JNum PInf))
       \<and> (\<forall>a b x y. b64 (p / 100) = Fin a \<and> b64 (1 + a) = Fin b
              \<and> b64 (c * b) = Fin x \<and> b64 (x * 100) = Fin y
            \<longrightarrow> new_price (calc_row (Fin p) Markup row)
                  = Some (JNum (b64 (of_int \<lfloor>y + 1 / 2\<rfloor> / 100))))
       \<and> (c = 60 \<and> p = 40 \<longrightarrow>
            new_price (calc_row (Fin p) Margin row) = Some (JNum (Fin 100))
          \<and> margin_percent (calc_row (Fin p) Margin row) = Some (JNum (Fin 40))
          \<and> new_price (calc_row (Fin p) Markup row) = Some (JNum (Fin 84))
          \<and> margin_percent (calc_row (Fin p) Markup row) = Some (JNum (b64 (2857 / 100))))"
proof (intro conjI allI impI)
  have c0: "c \<noteq> 0" using assms(2) by simp
  note np = calc_row_priced [OF assms(1) c0]
  note mp = calc_row_margin [OF assms(1) c0]
  show "new_price (calc_row (Fin p) Margin row) = Some (JNum (b64 (of_int \<lfloor>y + 1 / 2\<rfloor> / 100)))"
    if "b64 (p / 100) = Fin a \<and> b64 (1 - a) = Fin b \<and> b \<noteq> 0
              \<and> b64 (c / b) = Fin x \<and> b64 (x * 100) = Fin y" for a b x y
    using that by (simp add: np js_sub_def round_cents_def)
  show "new_price (calc_row (Fin p) Margin row) = Some (JNum PInf)"
    if "b64 (p / 100) = Fin 1"
  proof -
    have z: "b64 0 = Fin 0" by (simp add: b64_def)
    show ?thesis
      using that assms(2) by (simp add: np js_sub_def round_cents_def js_inf_def z)
  qed
  show "new_price (calc_row (Fin p) Markup row) = Some (JNum (b64 (of_int \<lfloor>y + 1 / 2\<rfloor> / 100)))"
    if "b64 (p / 100) = Fin a \<and> b64 (1 + a) = Fin b
              \<and> b64 (c * b) = Fin x \<and> b64 (x * 100) = Fin y" for a b x y
    using that by (simp add: np round_cents_def)
  { assume cp: "c = 60 \<and> p = 40"
    have m1: "round_cents (js_div (Fin 60) (js_sub (Fin 1) (js_div (Fin 40) (Fin 100)))) = Fin 100"
      by code_simp
    have m2: "round_cents (js_mul (js_div (js_sub (Fin 100) (Fin 60)) (Fin 100)) (Fin 100)) = Fin 40"
      by code_simp
    have k1: "round_cents (js_mul (Fin 60) (js_add (Fin 1) (js_div (Fin 40) (Fin 100)))) = Fin 84"
      by code_simp
    have k2: "round_cents (js_mul (js_div (js_sub (Fin 84) (Fin 60)) (Fin 84)) (Fin 100))
                = b64 (2857 / 100)"
      by code_simp
    show "new_price (calc_row (Fin p) Margin row) = Some (JNum (Fin 100))"
      using cp by (simp add: np m1 del: js_div.simps js_mul.simps js_add.simps)
    show "margin_percent (calc_row (Fin p) Margin row) = Some (JNum (Fin 40))"
      using cp by (simp add: mp m1 m2 Let_def del: js_div.simps js_mul.simps js_add.simps)
    show "new_price (calc_row (Fin p) Markup row) = Some (JNum (Fin 84))"
      using cp by (simp add: np k1 del: js_div.simps js_mul.simps js_add.simps)
    show "margin_percent (calc_row (Fin p) Markup row) = Some (JNum (b64 (2857 / 100)))"
      using cp by (simp add: mp k1 k2 Let_def del: js_div.simps js_mul.simps js_add.simps) }
qed

theorem pricing_formula_witness:
  "cost_price row_cost60 = Fin 60 \<and> (0::rat) < 60
   \<and> new_price (calc_row (Fin 40) Margin row_cost60) = Some (JNum (Fin 100))
   \<and> margin_percent (calc_row (Fin 40) Margin row_cost60) = Some (JNum (Fin 40))
   \<and> new_price (calc_row (Fin 40) Markup row_cost60) = Some (JNum (Fin 84))
   \<and> margin_percent (calc_row (Fin 40) Markup row_cost60) = Some (JNum (b64 (2857 / 100)))
   \<and> new_price (calc_row (Fin 100) Margin row_cost60) = Some (JNum PInf)"
proof -
  have h: "cost_price row_cost60 = Fin 60" by (simp add: row_cost60_def)
  have o: "b64 (100 / 100) = Fin 1" by code_simp
  show ?thesis
    using h o pricing_formula [OF h, of 40] pricing_formula [OF h, of 100] by simp
qed

text \<open>
  The zero-cost branch of src/app/page.tsx: a cost of 0 (or NaN) leaves the price as it
  is, with margin 0 and change 0, whatever the target and the method.
\<close>

lemma calc_row_zero_cost:
  assumes "cost_price row = Fin 0 \<or> cost_price row = NaN"
  shows "new_price (calc_row t m row) = Some (JNum (current_price row))
       \<and> margin_percent (calc_row t m row) = Some (JNum (Fin 0))
       \<and> price_change (calc_row t m row) = Some (JNum (Fin 0))"
  using assms by (auto simp: calc_row_def truthy_num_def Let_def)

text \<open>
  C2, on src/page.tsx. The pass of src/page.tsx has no zero-cost branch: a row with cost
  0 and current price 25 comes out with new price 0 and price change -25, under either
  method, where the claim (and the pass of src/app/page.tsx, see \<open>calc_row_zero_cost\<close>)
  keeps the current price and a change of 0.
\<close>

theorem root_pass_zero_cost:
  "cost_price row_nocost = Fin 0
   \<and> current_price row_nocost = Fin 25
   \<and> new_price (calc_row_root (Fin 40) Margin row_nocost) = Some (JNum (Fin 0))
   \<and> margin_percent (calc_row_root (Fin 40) Margin row_nocost) = Some (JNum (Fin 0))
   \<and> price_change (calc_row_root (Fin 40) Margin row_nocost) = Some (JNum (Fin (- 25)))
   \<and> new_price (calc_row_root (Fin 40) Markup row_nocost) = Some (JNum (Fin 0))
   \<and> price_change (calc_row_root (Fin 40) Markup row_nocost) = Some (JNum (Fin (- 25)))"
  by code_simp

lemma calc_row_idem: "calc_row t m (calc_row t m row) = calc_row t m row"
  by (simp add: calc_row_def Let_def)

text \<open>
  C8. Running the pricing pass of src/app/page.tsx on a session it has already run on,
  with the target and the method unchanged, gives the same session: every row keeps its
  new price, realized margin and price change (and every other field).
\<close>

theorem pricing_pass_idempotent: "calculatePrices (calculatePrices s) = calculatePrices s"
  by (simp add: calculatePrices_def calc_row_idem)

text \<open>
  C10 as stated fails at a cost that is NaN, which is a cost other than 0. The pass of
  src/app/page.tsx tests \<open>!row.cost_price\<close>, which NaN satisfies, and keeps the current
  price 25 with a change of 0; the pass of src/page.tsx sends the row through the formula
  and \<open>|| 0\<close>, and gives new price 0 with a change of -25.
\<close>

theorem root_pass_nan_counterexample:
  "cost_price row_nancost = NaN
   \<and> cost_price row_nancost \<noteq> Fin 0
   \<and> current_price row_nancost = Fin 25
   \<and> new_price (calc_row (Fin 40) Margin row_nancost) = Some (JNum (Fin 25))
   \<and> price_change (calc_row (Fin 40) Margin row_nancost) = Some (JNum (Fin 0))
   \<and> new_price (calc_row_root (Fin 40) Margin row_nancost) = Some (JNum (Fin 0))
   \<and> price_change (calc_row_root (Fin 40) Margin row_nancost) = Some (JNum (Fin (- 25)))"
  by code_simp

text \<open>
  C10 as amended. On a row whose cost is a number other than 0 (NaN is not a number) the
  callbacks of src/page.tsx and of src/app/page.tsx return the same row, so the same new
  price, realized margin and price change, for every target and method.
\<close>

theorem root_pass_agrees:
  assumes "cost_price row \<noteq> Fin 0" and "cost_price row \<noteq> NaN"
  shows "calc_row_root t m row = calc_row t m row"
  using assms by (simp add: calc_row_def calc_row_root_def truthy_num_def Let_def)

theorem root_pass_agrees_witness:
  "cost_price row_cost60 \<noteq> Fin 0 \<and> cost_price row_cost60 \<noteq> NaN
   \<and> calc_row_root (Fin 40) Markup row_cost60 = calc_row (Fin 40) Markup row_cost60
   \<and> new_price (calc_row_root (Fin 40) Markup row_cost60) = Some (JNum (Fin 84))"
proof -
  have h1: "cost_price row_cost60 \<noteq> Fin 0" and h2: "cost_price row_cost60 \<noteq> NaN"
    by (simp_all add: row_cost60_def)
  have e: "calc_row_root (Fin 40) Markup row_cost60 = calc_row (Fin 40) Markup row_cost60"
    by (rule root_pass_agrees [OF h1 h2])
  have k: "round_cents (js_mul (Fin 60) (js_add (Fin 1) (js_div (Fin 40) (Fin 100)))) = Fin 84"
    by code_simp
  have "new_price (calc_row (Fin 40) Markup row_cost60) = Some (JNum (Fin 84))"
    by (simp add: calc_row_priced [where c = 60] row_cost60_def k
             del: js_div.simps js_mul.simps js_add.simps)
  with e h1 h2 show ?thesis by simp
qed

section \<open>Properties of the summary figures\<close>









section \<open>Properties of ingestion\<close>








text \<open>
  Which rows the identifier filter keeps: those whose \<open>Variant SKU\<close> cell, trimmed, is
  not empty and does not begin with \<open>ROW-\<close>.
\<close>

lemma row_kept_iff:
  "keeps_row (ingest_row i raw) \<longleftrightarrow>
     (\<exists>w. map_of raw skuField = Some w \<and> truthy_val (Some w) \<and> trim (to_string w) \<noteq> []
          \<and> \<not> starts_with ''ROW-'' (trim (to_string w)))"
proof (cases "map_of raw skuField")
  case None
  then show ?thesis by (simp add: keeps_row_def ingest_row_def starts_with_def)
next
  case (Some w)
  then show ?thesis
    by (cases "truthy_val (Some w)") (simp_all add: keeps_row_def ingest_row_def starts_with_def)
qed

text \<open>
  C4, at a row with a real identifier. The filter tests \<open>startsWith('ROW-')\<close>, not
  equality with the placeholder made for the row: a file whose only row has the
  identifier \<open>ROW-BOAT-7\<close> loses that row and is refused as NoValidRows, with the
  message to check that the \<open>Variant SKU\<close> column has data.
\<close>

theorem row_prefix_sku_dropped:
  "map_of (hd (file_rows file_row_prefix)) skuField = Some (JStr ''ROW-BOAT-7'')
   \<and> trim ''ROW-BOAT-7'' = ''ROW-BOAT-7''
   \<and> process_rows (file_rows file_row_prefix) = []
   \<and> fst (handleFileUpload (Some file_row_prefix) session_loaded) = Some NoValidRows"
  by code_simp

text \<open>
  A refused upload leaves the rows of the session as they were, and a refusal other than
  NoValidRows leaves the recorded header names as they were.
\<close>

lemma refused_upload_keeps_data:
  "fst (handleFileUpload file s) \<noteq> None \<Longrightarrow> data (snd (handleFileUpload file s)) = data s"
  by (auto simp: handleFileUpload_def parse_complete_def Let_def
           split: option.splits list.splits if_splits)

lemma refused_upload_keeps_headers:
  "fst (handleFileUpload file s) = Some e \<Longrightarrow> e \<noteq> NoValidRows
     \<Longrightarrow> headers (snd (handleFileUpload file s)) = headers s"
  by (auto simp: handleFileUpload_def parse_complete_def Let_def
           split: option.splits list.splits if_splits)

text \<open>
  C7, at a refusal for NoValidRows. \<open>setHeaders(columns)\<close> runs before the rows are
  filtered: a session holding rows under three header names, given a file whose only
  row has a blank identifier, is refused and keeps its rows, but its recorded header
  names are now the two of the refused file.
\<close>

theorem refused_upload_replaces_headers:
  "fst (handleFileUpload (Some file_blank_sku) session_loaded) = Some NoValidRows
   \<and> headers session_loaded = [''Variant SKU'', ''Variant Price'', ''Cost per item'']
   \<and> headers (snd (handleFileUpload (Some file_blank_sku) session_loaded))
       = [''Variant SKU'', ''Variant Price'']
   \<and> data (snd (handleFileUpload (Some file_blank_sku) session_loaded)) = data session_loaded"
  by code_simp

section \<open>Properties of the numeric cells\<close>

text \<open>
  C3 as stated fails: \<open>cleanNumber\<close> has no test of the sign. The cell \<open>-5\<close> is
  stored as -5, and a file with price \<open>-5\<close> and cost \<open>$-2.50\<close> is accepted with
  these two negative values in its row.
\<close>

theorem negative_cell_counterexample:
  "cleanNumber (Some (JStr ''-5'')) = Fin (- 5)
   \<and> js_lt (cleanNumber (Some (JStr ''-5''))) (Fin 0)
   \<and> fst (handleFileUpload (Some file_negative) session_loaded) = None
   \<and> map current_price (data (snd (handleFileUpload (Some file_negative) session_loaded)))
       = [Fin (- 5)]
   \<and> map cost_price (data (snd (handleFileUpload (Some file_negative) session_loaded)))
       = [Fin (- 5 / 2)]"
  by code_simp

text \<open>A literal without a sign is NaN, Infinity or a number that is not negative.\<close>

lemma pow2_pos: "0 < pow2 e"
  by (simp add: pow2_def)

lemma pow10_pos: "0 < pow10 e"
  by (simp add: pow10_def)

lemma round_half_even_nonneg: "0 \<le> r \<Longrightarrow> 0 \<le> round_half_even r"
  by (simp add: round_half_even_def Let_def)

lemma b64_nonneg:
  assumes "0 \<le> x"
  shows "b64 x = PInf \<or> (\<exists>q. b64 x = Fin q \<and> 0 \<le> q)"
proof (cases "x = 0")
  case True
  then show ?thesis by (simp add: b64_def)
next
  case False
  define u where "u = pow2 (max (ilog2 \<bar>x\<bar>) (- 1022) - 52)"
  have u: "0 < u" by (simp add: u_def pow2_pos)
  with assms have "0 \<le> x / u" by simp
  then have "0 \<le> round_half_even (x / u)" by (rule round_half_even_nonneg)
  with u have "0 \<le> of_int (round_half_even (x / u)) * u" by simp
  with assms False show ?thesis
    by (auto simp: b64_def Let_def u_def)
qed

lemma digits_value_nonneg:
  assumes "list_all is_digit ds"
  shows "0 \<le> digits_value ds"
proof -
  have "0 \<le> a \<Longrightarrow> list_all is_digit ds \<Longrightarrow> 0 \<le> foldl (\<lambda>a c. 10 * a + digit_val c) a ds" for a
    by (induction ds arbitrary: a) (auto simp: is_digit_def digit_val_def)
  with assms show ?thesis by (simp add: digits_value_def)
qed

lemma unsigned_literal_range:
  "unsigned_literal s = NaN \<or> unsigned_literal s = PInf
   \<or> (\<exists>q. unsigned_literal s = Fin q \<and> 0 \<le> q)"
proof -
  define ip where "ip = takeWhile is_digit s"
  define r1 where "r1 = dropWhile is_digit s"
  define fp where "fp = (if r1 \<noteq> [] \<and> hd r1 = CHR ''.'' then takeWhile is_digit (tl r1) else [])"
  define r2 where "r2 = (if r1 \<noteq> [] \<and> hd r1 = CHR ''.'' then dropWhile is_digit (tl r1) else r1)"
  define x where "x = of_int (digits_value (ip @ fp)) / 10 ^ length fp
                        * pow10 (fst (exponent_split r2))"
  have "list_all is_digit (ip @ fp)"
    by (auto simp: ip_def fp_def list_all_iff dest: set_takeWhileD)
  then have "0 \<le> digits_value (ip @ fp)" by (rule digits_value_nonneg)
  then have "0 \<le> x"
    using pow10_pos [of "fst (exponent_split r2)"] by (simp add: x_def)
  then have b: "b64 x = PInf \<or> (\<exists>q. b64 x = Fin q \<and> 0 \<le> q)" by (rule b64_nonneg)
  have "unsigned_literal s = PInf \<or> unsigned_literal s = NaN \<or> unsigned_literal s = b64 x"
    by (simp add: unsigned_literal_def unsigned_split_def Let_def
                  ip_def r1_def fp_def r2_def x_def)
  with b show ?thesis by auto
qed

lemma parseFloat_range:
  assumes "\<not> starts_with ''-'' t" and "\<forall>c\<in>set t. \<not> is_js_space c"
  shows "parseFloat t = NaN \<or> parseFloat t = PInf \<or> (\<exists>q. parseFloat t = Fin q \<and> 0 \<le> q)"
proof (cases t)
  case Nil
  then show ?thesis by (simp add: parseFloat_def)
next
  case (Cons c r)
  with assms have d: "dropWhile is_js_space t = c # r" and m: "c \<noteq> CHR ''-''"
    by (auto simp: starts_with_def)
  show ?thesis
    using unsigned_literal_range [of r] unsigned_literal_range [of "c # r"] m
    by (simp add: parseFloat_def d)
qed

lemma parseFloat_minus:
  "parseFloat (CHR ''-'' # r) = js_neg (unsigned_literal r)"
  by (simp add: parseFloat_def is_js_space_def)

text \<open>
  C3 as amended. The value stored for a cell is never NaN: it is 0 for a missing or
  empty cell and for text that does not parse, and for any other text it is what
  \<open>parseFloat\<close> reads in the text left after stripping \<open>$\<close>, commas, quotes and white
  space. It is at least 0 whenever that text does not begin with a minus sign. When that
  text is a minus sign before a literal of a value \<open>q > 0\<close>, the stored value is the
  negative number \<open>-q\<close>. Every row of an ingested dataset holds in \<open>current_price\<close>
  and \<open>cost_price\<close> the values \<open>cleanNumber\<close> gives for the price and cost cells of a
  parsed row.
\<close>

theorem cleanNumber_range:
  "cleanNumber v \<noteq> NaN
   \<and> (v = None \<or> v = Some (JStr []) \<longrightarrow> cleanNumber v = Fin 0)
   \<and> (\<forall>cell. v = Some (JStr cell)
         \<and> parseFloat (filter (\<lambda>c. \<not> stripped_char c) cell) = NaN
         \<longrightarrow> cleanNumber v = Fin 0)
   \<and> (\<forall>cell. v = Some (JStr cell) \<and> cell \<noteq> []
         \<and> parseFloat (filter (\<lambda>c. \<not> stripped_char c) cell) \<noteq> NaN
         \<longrightarrow> cleanNumber v = parseFloat (filter (\<lambda>c. \<not> stripped_char c) cell))
   \<and> (\<forall>cell. v = Some (JStr cell)
         \<and> \<not> starts_with ''-'' (filter (\<lambda>c. \<not> stripped_char c) cell)
         \<longrightarrow> cleanNumber v = PInf \<or> (\<exists>q. cleanNumber v = Fin q \<and> 0 \<le> q))
   \<and> (\<forall>cell r q. v = Some (JStr cell)
         \<and> filter (\<lambda>c. \<not> stripped_char c) cell = CHR ''-'' # r
         \<and> unsigned_literal r = Fin q \<and> 0 < q
         \<longrightarrow> cleanNumber v = Fin (- q) \<and> js_lt (cleanNumber v) (Fin 0))
   \<and> (\<forall>r\<in>set (process_rows parsed). \<exists>raw\<in>set parsed.
         current_price r = cleanNumber (map_of raw priceField)
         \<and> cost_price r = cleanNumber (map_of raw costField))"
proof (intro conjI allI impI ballI)
  show "cleanNumber v \<noteq> NaN"
    by (simp add: cleanNumber_def Let_def split: option.splits)
  show "cleanNumber v = Fin 0" if "v = None \<or> v = Some (JStr [])"
    using that by (auto simp: cleanNumber_def truthy_val_def)
  show "cleanNumber v = Fin 0"
    if "v = Some (JStr cell) \<and> parseFloat (filter (\<lambda>c. \<not> stripped_char c) cell) = NaN"
    for cell
    using that by (simp add: cleanNumber_def)
  show "cleanNumber v = parseFloat (filter (\<lambda>c. \<not> stripped_char c) cell)"
    if "v = Some (JStr cell) \<and> cell \<noteq> []
         \<and> parseFloat (filter (\<lambda>c. \<not> stripped_char c) cell) \<noteq> NaN"
    for cell
    using that by (simp add: cleanNumber_def truthy_val_def)
  show "cleanNumber v = PInf \<or> (\<exists>q. cleanNumber v = Fin q \<and> 0 \<le> q)"
    if h: "v = Some (JStr cell) \<and> \<not> starts_with ''-'' (filter (\<lambda>c. \<not> stripped_char c) cell)"
    for cell
  proof -
    have "\<forall>c\<in>set (filter (\<lambda>c. \<not> stripped_char c) cell). \<not> is_js_space c"
      by (simp add: stripped_char_def)
    with h have "parseFloat (filter (\<lambda>c. \<not> stripped_char c) cell) = NaN
       \<or> parseFloat (filter (\<lambda>c. \<not> stripped_char c) cell) = PInf
       \<or> (\<exists>q. parseFloat (filter (\<lambda>c. \<not> stripped_char c) cell) = Fin q \<and> 0 \<le> q)"
      by (intro parseFloat_range) simp_all
    with h show ?thesis by (auto simp: cleanNumber_def Let_def)
  qed
  { fix cell r q
    assume h: "v = Some (JStr cell)
         \<and> filter (\<lambda>c. \<not> stripped_char c) cell = CHR ''-'' # r
         \<and> unsigned_literal r = Fin q \<and> 0 < q"
    then have ne: "cell \<noteq> []" by auto
    from h have "parseFloat (filter (\<lambda>c. \<not> stripped_char c) cell) = Fin (- q)"
      by (simp add: parseFloat_minus)
    with h ne show "cleanNumber v = Fin (- q)"
      by (simp add: cleanNumber_def truthy_val_def)
    with h show "js_lt (cleanNumber v) (Fin 0)"
      by (simp add: js_lt_def) }
  show "\<exists>raw\<in>set parsed. current_price r = cleanNumber (map_of raw priceField)
         \<and> cost_price r = cleanNumber (map_of raw costField)"
    if "r \<in> set (process_rows parsed)" for r
    using that by (auto simp: process_rows_def ingest_row_def Let_def in_set_enumerate_eq)
qed

theorem cleanNumber_range_witness:
  "\<not> starts_with ''-'' (filter (\<lambda>c. \<not> stripped_char c) ''$1,234.50'')
   \<and> (cleanNumber (Some (JStr ''$1,234.50'')) = PInf
        \<or> (\<exists>q. cleanNumber (Some (JStr ''$1,234.50'')) = Fin q \<and> 0 \<le> q))
   \<and> parseFloat (filter (\<lambda>c. \<not> stripped_char c) ''abc'') = NaN
   \<and> cleanNumber (Some (JStr ''abc'')) = Fin 0
   \<and> cleanNumber None = Fin 0
   \<and> filter (\<lambda>c. \<not> stripped_char c) ''$ -7.25'' = ''-7.25''
   \<and> unsigned_literal ''7.25'' = Fin (29 / 4)
   \<and> cleanNumber (Some (JStr ''$ -7.25'')) = Fin (- (29 / 4))"
proof -
  have a: "\<not> starts_with ''-'' (filter (\<lambda>c. \<not> stripped_char c) ''$1,234.50'')"
    by code_simp
  have b: "parseFloat (filter (\<lambda>c. \<not> stripped_char c) ''abc'') = NaN"
    by code_simp
  have c: "filter (\<lambda>c. \<not> stripped_char c) ''$ -7.25'' = CHR ''-'' # ''7.25''"
    by code_simp
  have d: "unsigned_literal ''7.25'' = Fin (29 / 4)"
    by code_simp
  from cleanNumber_range [of "Some (JStr ''$1,234.50'')" "[]"] a
  have 1: "cleanNumber (Some (JStr ''$1,234.50'')) = PInf
        \<or> (\<exists>q. cleanNumber (Some (JStr ''$1,234.50'')) = Fin q \<and> 0 \<le> q)"
    by blast
  from cleanNumber_range [of "Some (JStr ''abc'')" "[]"] b
  have 2: "cleanNumber (Some (JStr ''abc'')) = Fin 0" by blast
  from cleanNumber_range [of None "[]"]
  have 3: "cleanNumber None = Fin 0" by blast
  have p: "(0::rat) < 29 / 4" by simp
  from cleanNumber_range [of "Some (JStr ''$ -7.25'')" "[]"] c d p
  have 4: "cleanNumber (Some (JStr ''$ -7.25'')) = Fin (- (29 / 4))" by blast
  from a b c d 1 2 3 4 show ?thesis by simp
qed

section \<open>Properties of the export\<close>

text \<open>The decimal digits written by \<open>dec_digits\<close> read back as the number.\<close>

lemma digit_char_digit:
  assumes "0 \<le> d" and "d < 10"
  shows "is_digit (digit_char d) \<and> digit_val (digit_char d) = d"
proof -
  from assms have "d = 0 \<or> d = 1 \<or> d = 2 \<or> d = 3 \<or> d = 4
      \<or> d = 5 \<or> d = 6 \<or> d = 7 \<or> d = 8 \<or> d = 9"
    by arith
  then show ?thesis
    by (elim disjE) (simp_all add: digit_char_def is_digit_def digit_val_def)
qed

lemma digits_value_snoc: "digits_value (xs @ [c]) = 10 * digits_value xs + digit_val c"
  by (simp add: digits_value_def)

lemma dec_digits_nonempty: "dec_digits n \<noteq> []"
  by (subst dec_digits.simps) simp

lemma dec_digits_all_digits: "0 \<le> n \<Longrightarrow> list_all is_digit (dec_digits n)"
proof (induction n rule: dec_digits.induct)
  case (1 n)
  show ?case
  proof (cases "n < 10")
    case True
    with 1 show ?thesis
      by (subst dec_digits.simps) (simp add: digit_char_digit)
  next
    case False
    with 1 show ?thesis
      by (subst dec_digits.simps) (simp add: digit_char_digit)
  qed
qed

lemma digits_value_dec_digits: "0 \<le> n \<Longrightarrow> digits_value (dec_digits n) = n"
proof (induction n rule: dec_digits.induct)
  case (1 n)
  show ?case
  proof (cases "n < 10")
    case True
    with 1 show ?thesis
      by (subst dec_digits.simps) (simp add: digit_char_digit digits_value_def)
  next
    case False
    with 1 show ?thesis
      by (subst dec_digits.simps) (simp add: digit_char_digit digits_value_snoc)
  qed
qed

lemma digits_value_zeros: "digits_value (replicate k (CHR ''0'') @ xs) = digits_value xs"
proof -
  have "foldl (\<lambda>a c. 10 * a + digit_val c) 0 (replicate k (CHR ''0'')) = 0"
    by (induction k) (simp_all add: digit_val_def)
  then show ?thesis by (simp add: digits_value_def)
qed

text \<open>
  The text \<open>toFixed(2)\<close> writes for a finite Number below \<open>10^21\<close> in size: the sign,
  the digits of the nearest whole number of cents, and the point before the last two.
\<close>

lemma toFixed_two_decimals:
  assumes "\<bar>q\<bar> < 10 ^ 21"
  shows "\<exists>ip d1 d2. toFixed 2 (Fin q) = (if q < 0 then ''-'' else []) @ ip @ ''.'' @ [d1, d2]
      \<and> ip \<noteq> [] \<and> list_all is_digit (ip @ [d1, d2])
      \<and> digits_value (ip @ [d1, d2]) = \<lfloor>\<bar>q\<bar> * 100 + 1 / 2\<rfloor>"
proof -
  define n where "n = \<lfloor>\<bar>q\<bar> * 100 + 1 / 2\<rfloor>"
  define ds where "ds = dec_digits n"
  define m where "m = (if length ds \<le> 2 then replicate (3 - length ds) (CHR ''0'') @ ds else ds)"
  have n0: "0 \<le> n" by (simp add: n_def)
  have len: "3 \<le> length m" by (simp add: m_def)
  have "is_digit (CHR ''0'')" by (simp add: is_digit_def)
  then have dig: "list_all is_digit m"
    using dec_digits_all_digits [OF n0] by (auto simp: m_def ds_def list_all_iff)
  have val: "digits_value m = n"
    by (simp add: m_def ds_def digits_value_zeros digits_value_dec_digits n0)
  have small: "\<not> 10 ^ 21 \<le> (if q < 0 then - q else q)"
    using assms by (simp add: abs_if split: if_splits)
  have tf: "toFixed 2 (Fin q) =
      (if q < 0 then ''-'' else []) @ take (length m - 2) m @ ''.'' @ drop (length m - 2) m"
    using small
    by (simp add: toFixed.simps Let_def m_def ds_def n_def abs_if numeral_2_eq_2 numeral_3_eq_3)
  from len obtain d1 d2 where d: "drop (length m - 2) m = [d1, d2]"
    by (cases "drop (length m - 2) m" rule: list.exhaust;
        cases "tl (drop (length m - 2) m)" rule: list.exhaust;
        cases "tl (tl (drop (length m - 2) m))" rule: list.exhaust)
       (auto simp: drop_eq_Nil dest!: arg_cong [where f = length])
  have split: "take (length m - 2) m @ [d1, d2] = m"
    using d append_take_drop_id [of "length m - 2" m] by simp
  have "take (length m - 2) m \<noteq> []" using len by auto
  with tf d split dig val show ?thesis
    unfolding n_def by (intro exI [of _ "take (length m - 2) m"] exI [of _ d1] exI [of _ d2]) simp
qed

lemma calc_row_shopify_text:
  assumes "truthy_num (cost_price row)"
  shows "\<exists>np. new_price (calc_row t m row) = Some (JNum np)
            \<and> map_of (extra (calc_row t m row)) ''new_price_shopify''
                 = Some (JStr (toFixed 2 np))"
  using assms by (auto simp: calc_row_def Let_def update_conv' truthy_num_def)

text \<open>
  The accuracy of the rounding to binary64: \<open>ilog2\<close> is the binary exponent, and the
  rounded value is within half a unit in the last place. A whole number of cents divided
  by 100 and rounded, below \<open>2^45\<close> in size, is within less than half a cent of the
  exact quotient, so that \<open>toFixed(2)\<close> writes these cents and the text reads back as
  the same Number.
\<close>

lemma pow2_powi: "pow2 e = 2 powi e"
  by (simp add: pow2_def power_int_def inverse_eq_divide power_one_over)

lemma ndigits_bounds:
  assumes "2 \<le> b" and "1 \<le> p"
  shows "1 \<le> ndigits b p \<and> b ^ nat (ndigits b p - 1) \<le> p \<and> p < b ^ nat (ndigits b p)"
  using assms
proof (induction b p rule: ndigits.induct)
  case (1 b p)
  show ?case
  proof (cases "p < b")
    case True
    then have "ndigits b p = 1" by (subst ndigits.simps) simp
    with True 1 show ?thesis by simp
  next
    case False
    define m where "m = ndigits b (p div b)"
    have n: "ndigits b p = 1 + m"
      using False 1(2) by (subst ndigits.simps) (simp add: m_def)
    have d: "1 \<le> p div b"
      using False 1(2) by (simp add: pos_imp_zdiv_pos_iff int_one_le_iff_zero_less)
    from 1(1) [OF _ "1.prems"(1) d] False "1.prems"(1)
    have ih: "1 \<le> m" "b ^ nat (m - 1) \<le> p div b" "p div b < b ^ nat m"
      by (auto simp: m_def)
    have s: "nat m = Suc (nat (m - 1))" using ih(1) by simp
    have b0: "0 < b" using "1.prems"(1) by simp
    have e: "p = b * (p div b) + p mod b" by simp
    have r: "0 \<le> p mod b" "p mod b < b" using b0 by simp_all
    have "b * b ^ nat (m - 1) \<le> b * (p div b)"
      using ih(2) b0 by (simp add: mult_left_mono)
    moreover have "b ^ nat m = b * b ^ nat (m - 1)" by (subst s) simp
    ultimately have lo: "b ^ nat m \<le> p" using e r(1) by linarith
    have "p div b + 1 \<le> b ^ nat m" using ih(3) by simp
    then have "b * (p div b + 1) \<le> b * b ^ nat m"
      using b0 by (simp add: mult_left_mono)
    moreover have "b * (p div b + 1) = b * (p div b) + b" by (simp add: algebra_simps)
    ultimately have hi: "p < b * b ^ nat m" using e r(2) by linarith
    have t: "nat (1 + m) = Suc (nat m)" using ih(1) by simp
    from lo hi ih(1) show ?thesis by (simp add: n t)
  qed
qed

lemma ilog2_bounds:
  assumes "0 < x"
  shows "pow2 (ilog2 x) \<le> x \<and> x < pow2 (ilog2 x + 1)"
proof -
  obtain p q where pq: "quotient_of x = (p, q)" by (cases "quotient_of x")
  have q0: "0 < q" using pq by (rule quotient_of_denom_pos)
  have x: "x = of_int p / of_int q" using pq by (rule quotient_of_div)
  have p0: "0 < p" using assms q0 by (simp add: x zero_less_divide_iff)
  define np where "np = ndigits 2 p"
  define nq where "nq = ndigits 2 q"
  from ndigits_bounds [of 2 p] p0
  have bp: "1 \<le> np" "2 ^ nat (np - 1) \<le> p" "p < 2 ^ nat np" by (simp_all add: np_def)
  from ndigits_bounds [of 2 q] q0
  have bq: "1 \<le> nq" "2 ^ nat (nq - 1) \<le> q" "q < 2 ^ nat nq" by (simp_all add: nq_def)
  have rp: "of_int p < (2::rat) powi np"
  proof -
    have "(of_int p :: rat) < of_int (2 ^ nat np)" using bp(3) by (simp only: of_int_less_iff)
    then show ?thesis using bp(1) by (simp add: power_int_def)
  qed
  have rq: "(2::rat) powi (nq - 1) \<le> of_int q"
  proof -
    have "(of_int (2 ^ nat (nq - 1)) :: rat) \<le> of_int q" using bq(2) by (simp only: of_int_le_iff)
    then show ?thesis using bq(1) by (simp add: power_int_def)
  qed
  have q0': "(0::rat) < of_int q" using q0 by simp
  have "x < 2 powi np / of_int q"
    using rp q0' by (simp add: x divide_strict_right_mono)
  also have "\<dots> \<le> 2 powi np / 2 powi (nq - 1)"
    using rq q0 by (intro divide_left_mono mult_pos_pos) simp_all
  also have "\<dots> = 2 powi (np - nq + 1)"
    by (simp add: power_int_diff [symmetric] algebra_simps)
  finally have hi: "x < pow2 (np - nq + 1)" by (simp add: pow2_powi)
  show ?thesis
  proof (cases "pow2 (np - nq) \<le> x")
    case True
    then have "ilog2 x = np - nq" by (simp add: ilog2_def pq np_def nq_def)
    with True hi show ?thesis by simp
  next
    case False
    then have i: "ilog2 x = np - nq - 1" by (simp add: ilog2_def pq np_def nq_def)
    have lp: "(2::rat) powi (np - 1) \<le> of_int p"
    proof -
      have "(of_int (2 ^ nat (np - 1)) :: rat) \<le> of_int p" using bp(2) by (simp only: of_int_le_iff)
      then show ?thesis using bp(1) by (simp add: power_int_def)
    qed
    have uq: "of_int q < (2::rat) powi nq"
    proof -
      have "(of_int q :: rat) < of_int (2 ^ nat nq)" using bq(3) by (simp only: of_int_less_iff)
      then show ?thesis using bq(1) by (simp add: power_int_def)
    qed
    have "(2::rat) powi (np - nq - 1) = 2 powi (np - 1) / 2 powi nq"
      by (simp add: power_int_diff [symmetric] algebra_simps)
    also have "\<dots> \<le> of_int p / 2 powi nq"
      using lp by (simp add: divide_right_mono)
    also have "\<dots> \<le> of_int p / of_int q"
      using uq q0' p0 by (intro divide_left_mono mult_pos_pos) simp_all
    finally have "pow2 (np - nq - 1) \<le> x" by (simp add: pow2_powi x)
    with False i show ?thesis by simp
  qed
qed

lemma round_half_even_close: "\<bar>of_int (round_half_even r) - r\<bar> \<le> 1 / 2"
proof -
  define d where "d = r - of_int \<lfloor>r\<rfloor>"
  have d: "0 \<le> d" "d < 1" unfolding d_def by linarith+
  have r: "r = of_int \<lfloor>r\<rfloor> + d" by (simp add: d_def)
  show ?thesis
  proof (cases "d < 1 / 2")
    case True
    then have "round_half_even r = \<lfloor>r\<rfloor>"
      by (simp add: round_half_even_def Let_def d_def)
    then have "of_int (round_half_even r) - r = - d" by (simp add: d_def)
    with True d show ?thesis by simp
  next
    case False
    then have "round_half_even r = \<lfloor>r\<rfloor> \<or> round_half_even r = \<lfloor>r\<rfloor> + 1"
      by (simp add: round_half_even_def Let_def d_def)
    then show ?thesis
    proof
      assume a: "round_half_even r = \<lfloor>r\<rfloor>"
      with False have "d = 1 / 2"
        by (simp add: round_half_even_def Let_def d_def split: if_splits)
      moreover from a have "of_int (round_half_even r) - r = - d" by (simp add: d_def)
      ultimately show ?thesis by simp
    next
      assume "round_half_even r = \<lfloor>r\<rfloor> + 1"
      then have "of_int (round_half_even r) - r = 1 - d" by (simp add: d_def)
      with False d show ?thesis by simp
    qed
  qed
qed

lemma b64_close:
  assumes "b64 x = Fin y"
  shows "\<bar>y - x\<bar> \<le> pow2 (max (ilog2 \<bar>x\<bar>) (- 1022) - 53)"
proof (cases "x = 0")
  case True
  with assms show ?thesis by (simp add: b64_def pow2_powi)
next
  case False
  define e where "e = max (ilog2 \<bar>x\<bar>) (- 1022)"
  define u where "u = pow2 (e - 52)"
  define n where "n = round_half_even (x / u)"
  have u0: "0 < u" by (simp add: u_def pow2_pos)
  from assms False have y: "y = of_int n * u"
    by (simp add: b64_def Let_def e_def u_def n_def split: if_splits)
  have "\<bar>of_int n - x / u\<bar> \<le> 1 / 2" unfolding n_def by (rule round_half_even_close)
  then have "\<bar>of_int n - x / u\<bar> * u \<le> 1 / 2 * u" using u0 by (simp add: mult_right_mono)
  moreover have "\<bar>of_int n - x / u\<bar> * u = \<bar>y - x\<bar>"
  proof -
    have "(of_int n - x / u) * u = y - x" using u0 by (simp add: y field_simps)
    then have "\<bar>y - x\<bar> = \<bar>of_int n - x / u\<bar> * \<bar>u\<bar>" by (simp add: abs_mult [symmetric])
    with u0 show ?thesis by simp
  qed
  moreover have "1 / 2 * u = pow2 (e - 53)"
  proof -
    have "(2::rat) powi (e - 52) = 2 powi (e - 53 + 1)" by simp
    also have "\<dots> = 2 powi (e - 53) * 2" by (subst power_int_add) simp_all
    finally show ?thesis by (simp add: u_def pow2_powi)
  qed
  ultimately show ?thesis by (simp add: e_def)
qed

lemma round_half_even_minus: "round_half_even (- r) = - round_half_even r"
proof -
  define n where "n = \<lfloor>r\<rfloor>"
  define d where "d = r - of_int n"
  have d: "0 \<le> d" "d < 1" unfolding d_def n_def by linarith+
  show ?thesis
  proof (cases "d = 0")
    case True
    then have r: "r = of_int n" by (simp add: d_def)
    show ?thesis by (simp add: r round_half_even_def Let_def)
  next
    case False
    have f: "\<lfloor>- r\<rfloor> = - n - 1"
      using d False by (intro floor_unique) (simp_all add: d_def)
    have g: "- r - of_int \<lfloor>- r\<rfloor> = 1 - d" by (simp add: f d_def)
    have h: "r - of_int \<lfloor>r\<rfloor> = d" by (simp add: d_def n_def)
    show ?thesis
      unfolding round_half_even_def Let_def g h
      using d False by (auto simp: f n_def [symmetric])
  qed
qed

lemma b64_minus: "b64 (- x) = js_neg (b64 x)"
proof (cases "x = 0")
  case True
  then show ?thesis by (simp add: b64_def)
next
  case False
  define e where "e = max (ilog2 \<bar>x\<bar>) (- 1022)"
  define u where "u = pow2 (e - 52)"
  define n where "n = round_half_even (x / u)"
  have m: "round_half_even (- (x / u)) = - n"
    using round_half_even_minus [of "x / u"] by (simp add: n_def)
  have a: "b64 x = (if 1023 < e \<or> (e = 1023 \<and> \<bar>n\<bar> = 2 ^ 53)
                    then (if x < 0 then NInf else PInf) else Fin (of_int n * u))"
    unfolding b64_def Let_def e_def u_def n_def using False by (simp only: if_False)
  have "b64 (- x) = (if 1023 < e \<or> (e = 1023 \<and> \<bar>round_half_even (- x / u)\<bar> = 2 ^ 53)
                    then (if - x < 0 then NInf else PInf)
                    else Fin (of_int (round_half_even (- x / u)) * u))"
    unfolding b64_def Let_def e_def u_def using False
    by (simp only: if_False abs_minus_cancel neg_equal_0_iff_equal)
  then have b: "b64 (- x) = (if 1023 < e \<or> (e = 1023 \<and> \<bar>n\<bar> = 2 ^ 53)
                    then (if 0 < x then NInf else PInf) else Fin (- (of_int n * u)))"
    by (simp add: m)
  show ?thesis
    unfolding a b using False by auto
qed

lemma pow2_mono: "a \<le> b \<Longrightarrow> pow2 a \<le> pow2 b"
  by (simp add: pow2_powi power_int_increasing)

lemma pow2_add: "pow2 (a + b) = pow2 a * pow2 b"
  by (simp add: pow2_powi power_int_add)

lemma cents_nearest:
  assumes "b64 (of_int k / 100) = Fin q" and "\<bar>q\<bar> < 2 ^ 45"
  shows "\<lfloor>\<bar>q\<bar> * 100 + 1 / 2\<rfloor> = \<bar>k\<bar>"
proof (cases "k = 0")
  case True
  have "\<lfloor>1 / 2 :: rat\<rfloor> = 0" by (intro floor_unique) simp_all
  with True assms show ?thesis by (simp add: b64_def)
next
  case False
  define x :: rat where "x = of_int k / 100"
  define e where "e = max (ilog2 \<bar>x\<bar>) (- 1022)"
  have x0: "0 < \<bar>x\<bar>" using False by (simp add: x_def)
  from assms(1) have c: "\<bar>q - x\<bar> \<le> pow2 (e - 53)"
    unfolding x_def [symmetric] e_def by (rule b64_close)
  have e45: "e \<le> 45"
  proof (rule ccontr)
    assume "\<not> e \<le> 45"
    then have e46: "46 \<le> e" by simp
    then have "e = ilog2 \<bar>x\<bar>" by (simp add: e_def)
    with ilog2_bounds [OF x0] have l: "pow2 e \<le> \<bar>x\<bar>" by simp
    have "pow2 (e - 53) = pow2 e * pow2 (- 53)"
      using pow2_add [of e "- 53"] by simp
    also have "\<dots> \<le> pow2 e * (1 / 2)"
      using pow2_pos [of e] by (intro mult_left_mono) (simp_all add: pow2_def)
    finally have s: "pow2 (e - 53) \<le> pow2 e / 2" by simp
    have "pow2 46 \<le> pow2 e" using e46 by (rule pow2_mono)
    then have b: "2 ^ 46 \<le> pow2 e" by (simp add: pow2_def)
    have "\<bar>x\<bar> - \<bar>q - x\<bar> \<le> \<bar>q\<bar>" by linarith
    with c s l have "pow2 e / 2 \<le> \<bar>q\<bar>" by linarith
    with b have "2 ^ 45 \<le> \<bar>q\<bar>" by simp
    with assms(2) show False by simp
  qed
  then have "pow2 (e - 53) \<le> pow2 (- 8)" by (intro pow2_mono) simp
  then have "pow2 (e - 53) \<le> 1 / 256" by (simp add: pow2_def)
  with c have "\<bar>q - x\<bar> \<le> 1 / 256" by linarith
  then have "\<bar>q - x\<bar> * 100 \<le> 1 / 256 * 100" by (intro mult_right_mono) simp_all
  moreover have "\<bar>q - x\<bar> * 100 = \<bar>q * 100 - of_int k\<bar>"
  proof -
    have "(q - x) * 100 = q * 100 - of_int k" by (simp add: x_def algebra_simps)
    then have "\<bar>q * 100 - of_int k\<bar> = \<bar>q - x\<bar> * \<bar>100\<bar>" by (simp only: abs_mult [symmetric])
    then show ?thesis by simp
  qed
  ultimately have n: "\<bar>q * 100 - of_int k\<bar> < 1 / 2" by simp
  have "\<bar>\<bar>q * 100\<bar> - \<bar>of_int k :: rat\<bar>\<bar> \<le> \<bar>q * 100 - of_int k\<bar>" by (rule abs_triangle_ineq3)
  with n have m: "\<bar>\<bar>q\<bar> * 100 - of_int \<bar>k\<bar>\<bar> < 1 / 2" by (simp add: abs_mult)
  define a where "a = \<bar>q\<bar> * 100"
  define b :: rat where "b = of_int \<bar>k\<bar>"
  from m have "\<bar>a - b\<bar> < 1 / 2" by (simp add: a_def b_def)
  then have "b \<le> a + 1 / 2" "a + 1 / 2 < b + 1" by linarith+
  then show ?thesis
    unfolding a_def b_def by (intro floor_unique)
qed

lemma cents_readback:
  assumes "b64 (of_int k / 100) = Fin q"
  shows "b64 (of_int \<bar>k\<bar> / 100) = Fin \<bar>q\<bar>"
proof (cases "0 \<le> k")
  case True
  then have "0 \<le> (of_int k / 100 :: rat)" by simp
  from b64_nonneg [OF this] assms have "0 \<le> q" by auto
  with True assms show ?thesis by simp
next
  case False
  then have "0 \<le> (- (of_int k / 100) :: rat)" by simp
  from b64_nonneg [OF this] assms have "0 \<le> - q" by (auto simp: b64_minus)
  moreover have "b64 (- (of_int k / 100)) = Fin (- q)" by (simp add: b64_minus assms)
  ultimately show ?thesis using False by (simp add: abs_if)
qed

lemma round_cents_cents:
  assumes "round_cents x = Fin q"
  shows "\<exists>k. b64 (of_int k / 100) = Fin q"
proof (cases "js_mul x (Fin 100)")
  case (Fin y)
  with assms show ?thesis by (auto simp: round_cents_def)
next
  case PInf
  with assms show ?thesis by (simp add: round_cents_def js_inf_def)
next
  case NInf
  with assms show ?thesis by (simp add: round_cents_def js_inf_def)
next
  case NaN
  with assms show ?thesis by (simp add: round_cents_def)
qed

lemma unsigned_literal_fixed:
  assumes "ip \<noteq> []" and "list_all is_digit (ip @ [d1, d2])"
  shows "unsigned_literal (ip @ ''.'' @ [d1, d2])
           = b64 (of_int (digits_value (ip @ [d1, d2])) / 100)"
proof -
  have nd: "\<not> is_digit (CHR ''.'')" by (simp add: is_digit_def)
  from assms(2) have a: "\<forall>c\<in>set ip. is_digit c" and d: "is_digit d1" "is_digit d2"
    by (simp_all add: list_all_iff)
  have tw: "takeWhile is_digit (ip @ CHR ''.'' # [d1, d2]) = ip"
    using a nd by (simp add: takeWhile_append2)
  have dw: "dropWhile is_digit (ip @ CHR ''.'' # [d1, d2]) = CHR ''.'' # [d1, d2]"
    using a nd by (simp add: dropWhile_append2)
  obtain c r where ip: "ip = c # r" using assms(1) by (cases ip) auto
  with a have "is_digit c" by simp
  then have "c \<noteq> CHR ''I''" by (auto simp: is_digit_def)
  then have inf: "\<not> starts_with ''Infinity'' (ip @ CHR ''.'' # [d1, d2])"
    by (simp add: starts_with_def ip)
  show ?thesis
    using inf assms(1) d
    by (simp add: unsigned_literal_def unsigned_split_def Let_def tw dw
                  exponent_split_def pow10_def)
qed

lemma parseFloat_fixed:
  assumes "ip \<noteq> []" and "list_all is_digit (ip @ [d1, d2])"
  shows "parseFloat ((if negative then ''-'' else []) @ ip @ ''.'' @ [d1, d2])
           = (if negative then js_neg (b64 (of_int (digits_value (ip @ [d1, d2])) / 100))
              else b64 (of_int (digits_value (ip @ [d1, d2])) / 100))"
proof -
  obtain c r where ip: "ip = c # r" using assms(1) by (cases ip) auto
  with assms(2) have "is_digit c" by simp
  then have c: "\<not> is_js_space c" "c \<noteq> CHR ''-''" "c \<noteq> CHR ''+''"
    by (auto simp: is_digit_def is_js_space_def of_nat_of_char [symmetric, where ?'a = int])
  have m: "\<not> is_js_space (CHR ''-'')" by (simp add: is_js_space_def)
  show ?thesis
  proof (cases negative)
    case True
    then show ?thesis
      using unsigned_literal_fixed [OF assms] by (simp add: parseFloat_def m)
  next
    case False
    then show ?thesis
      using unsigned_literal_fixed [OF assms] c by (simp add: parseFloat_def ip)
  qed
qed

lemma calc_row_new_price_cents:
  assumes "truthy_num (cost_price row)"
    and "new_price (calc_row t m row) = Some (JNum (Fin q))"
  shows "\<exists>k. b64 (of_int k / 100) = Fin q"
proof -
  from assms have "\<exists>x. round_cents x = Fin q"
    by (auto simp: calc_row_def Let_def truthy_num_def split: if_splits)
  then show ?thesis by (auto dest: round_cents_cents)
qed

text \<open>
  C5 as stated fails. The price column is \<open>row.new_price_shopify || row.new_price\<close>;
  the current price is never read. A row on which no calculation has run (current
  price 90) has no value in the column, and a row priced by the zero-cost branch
  (current price 12.5) has the number 12.5 there, not a text with two decimals.
\<close>

theorem shopify_price_counterexample:
  "new_price row_cost60 = None
   \<and> current_price row_cost60 = Fin 90
   \<and> Variant_Price (shopify_of row_cost60) = None
   \<and> new_price (calc_row (Fin 40) Margin row_halfprice) = Some (JNum (Fin (25 / 2)))
   \<and> Variant_Price (shopify_of (calc_row (Fin 40) Margin row_halfprice))
       = Some (JNum (Fin (25 / 2)))"
  by code_simp

text \<open>
  C5 as amended. After the pricing pass, a row whose cost is a number other than 0 and
  whose new price \<open>q\<close> is finite and below \<open>10^21\<close> in size (where \<open>toFixed\<close> leaves
  the positional form) has in the price column the text of \<open>q\<close> with exactly two
  decimals: an optional minus sign, at least one digit, a point and two digits, the
  digits being the whole number of cents nearest to \<open>|q|\<close>. Below \<open>2^45\<close> in size the
  text reads back, by \<open>parseFloat\<close>, as the Number \<open>q\<close>. A row priced by the zero-cost
  branch, with no \<open>new_price_shopify\<close> value of its own, has the number \<open>new_price\<close>
  there, which is its current price. A row with no new price and no
  \<open>new_price_shopify\<close> value has no value in the column.
\<close>

theorem shopify_price_column:
  "(truthy_num (cost_price row) \<and> new_price (calc_row t m row) = Some (JNum (Fin q))
      \<and> \<bar>q\<bar> < 10 ^ 21 \<longrightarrow>
      (\<exists>ip d1 d2.
          Variant_Price (shopify_of (calc_row t m row))
            = Some (JStr ((if q < 0 then ''-'' else []) @ ip @ ''.'' @ [d1, d2]))
          \<and> ip \<noteq> [] \<and> list_all is_digit (ip @ [d1, d2])
          \<and> digits_value (ip @ [d1, d2]) = \<lfloor>\<bar>q\<bar> * 100 + 1 / 2\<rfloor>
          \<and> (\<bar>q\<bar> < 2 ^ 45 \<longrightarrow>
               parseFloat ((if q < 0 then ''-'' else []) @ ip @ ''.'' @ [d1, d2]) = Fin q)))
   \<and> (\<not> truthy_num (cost_price row)
      \<and> \<not> truthy_val (map_of (extra row) ''new_price_shopify'') \<longrightarrow>
      Variant_Price (shopify_of (calc_row t m row)) = Some (JNum (current_price row)))
   \<and> (new_price row = None
      \<and> \<not> truthy_val (map_of (extra row) ''new_price_shopify'') \<longrightarrow>
      Variant_Price (shopify_of row) = None)"
proof (intro conjI impI)
  assume h: "truthy_num (cost_price row) \<and> new_price (calc_row t m row) = Some (JNum (Fin q))
      \<and> \<bar>q\<bar> < 10 ^ 21"
  from h calc_row_shopify_text [of row t m]
  have tx: "map_of (extra (calc_row t m row)) ''new_price_shopify''
                 = Some (JStr (toFixed 2 (Fin q)))"
    by auto
  from h have b: "\<bar>q\<bar> < 10 ^ 21" by simp
  from toFixed_two_decimals [OF b] obtain ip d1 d2 where
    f: "toFixed 2 (Fin q) = (if q < 0 then ''-'' else []) @ ip @ ''.'' @ [d1, d2]"
    and i: "ip \<noteq> []" and d: "list_all is_digit (ip @ [d1, d2])"
    and v: "digits_value (ip @ [d1, d2]) = \<lfloor>\<bar>q\<bar> * 100 + 1 / 2\<rfloor>"
    by blast
  from f i have ne: "toFixed 2 (Fin q) \<noteq> []" by simp
  have vp: "Variant_Price (shopify_of (calc_row t m row)) = Some (JStr (toFixed 2 (Fin q)))"
    using tx ne by (simp add: shopify_of_def truthy_val_def)
  have rb: "parseFloat ((if q < 0 then ''-'' else []) @ ip @ ''.'' @ [d1, d2]) = Fin q"
    if s: "\<bar>q\<bar> < 2 ^ 45"
  proof -
    from h obtain k where k: "b64 (of_int k / 100) = Fin q"
      using calc_row_new_price_cents [of row t m q] by blast
    from cents_nearest [OF k s] v have "digits_value (ip @ [d1, d2]) = \<bar>k\<bar>" by simp
    with cents_readback [OF k]
    have "b64 (of_int (digits_value (ip @ [d1, d2])) / 100) = Fin \<bar>q\<bar>" by simp
    with parseFloat_fixed [OF i d, of "q < 0"] show ?thesis by (simp add: abs_if)
  qed
  from vp f i d v rb
  show "\<exists>ip d1 d2.
          Variant_Price (shopify_of (calc_row t m row))
            = Some (JStr ((if q < 0 then ''-'' else []) @ ip @ ''.'' @ [d1, d2]))
          \<and> ip \<noteq> [] \<and> list_all is_digit (ip @ [d1, d2])
          \<and> digits_value (ip @ [d1, d2]) = \<lfloor>\<bar>q\<bar> * 100 + 1 / 2\<rfloor>
          \<and> (\<bar>q\<bar> < 2 ^ 45 \<longrightarrow>
               parseFloat ((if q < 0 then ''-'' else []) @ ip @ ''.'' @ [d1, d2]) = Fin q)"
    by (intro exI [of _ ip] exI [of _ d1] exI [of _ d2]) simp
next
  assume "\<not> truthy_num (cost_price row)
      \<and> \<not> truthy_val (map_of (extra row) ''new_price_shopify'')"
  then show "Variant_Price (shopify_of (calc_row t m row)) = Some (JNum (current_price row))"
    by (auto simp: shopify_of_def calc_row_def Let_def truthy_num_def)
next
  assume "new_price row = None \<and> \<not> truthy_val (map_of (extra row) ''new_price_shopify'')"
  then show "Variant_Price (shopify_of row) = None"
    by (simp add: shopify_of_def)
qed

theorem shopify_price_column_witness:
  "truthy_num (cost_price row_cost60)
   \<and> new_price (calc_row (Fin 40) Markup row_cost60) = Some (JNum (Fin 84))
   \<and> Variant_Price (shopify_of (calc_row (Fin 40) Markup row_cost60)) = Some (JStr ''84.00'')
   \<and> parseFloat ''84.00'' = Fin 84
   \<and> Variant_Price (shopify_of (calc_row (Fin 40) Markup row_halfprice))
       = Some (JNum (Fin (25 / 2)))
   \<and> Variant_Price (shopify_of row_halfprice) = None"
proof -
  have c: "truthy_num (cost_price row_cost60)"
    by (simp add: row_cost60_def truthy_num_def)
  have k: "round_cents (js_mul (Fin 60) (js_add (Fin 1) (js_div (Fin 40) (Fin 100)))) = Fin 84"
    by code_simp
  have n: "new_price (calc_row (Fin 40) Markup row_cost60) = Some (JNum (Fin 84))"
    by (simp add: calc_row_priced [where c = 60] row_cost60_def k
             del: js_div.simps js_mul.simps js_add.simps)
  have b: "\<bar>84 :: rat\<bar> < 10 ^ 21" "\<bar>84 :: rat\<bar> < 2 ^ 45" by simp_all
  from shopify_price_column [of row_cost60 "Fin 40" Markup 84] c n b
  obtain ip d1 d2 where
    v: "Variant_Price (shopify_of (calc_row (Fin 40) Markup row_cost60))
          = Some (JStr ((if (84::rat) < 0 then ''-'' else []) @ ip @ ''.'' @ [d1, d2]))"
    and p: "parseFloat ((if (84::rat) < 0 then ''-'' else []) @ ip @ ''.'' @ [d1, d2]) = Fin 84"
    by blast
  from calc_row_shopify_text [OF c, of "Fin 40" Markup] n
  have t: "map_of (extra (calc_row (Fin 40) Markup row_cost60)) ''new_price_shopify''
             = Some (JStr (toFixed 2 (Fin 84)))"
    by auto
  have e: "toFixed 2 (Fin 84) = ''84.00''" by code_simp
  have 1: "Variant_Price (shopify_of (calc_row (Fin 40) Markup row_cost60))
             = Some (JStr ''84.00'')"
    using v t e by (simp add: shopify_of_def truthy_val_def)
  from v [unfolded 1]
  have s: "''84.00'' = (if (84::rat) < 0 then ''-'' else []) @ ip @ ''.'' @ [d1, d2]"
    by (simp only: option.inject jsval.inject)
  have 4: "parseFloat ''84.00'' = Fin 84" by (simp only: s p)
  have z: "\<not> truthy_num (cost_price row_halfprice)
      \<and> \<not> truthy_val (map_of (extra row_halfprice) ''new_price_shopify'')"
    by (simp add: row_halfprice_def truthy_num_def truthy_val_def)
  from shopify_price_column [of row_halfprice "Fin 40" Markup 0] z
  have 2: "Variant_Price (shopify_of (calc_row (Fin 40) Markup row_halfprice))
             = Some (JNum (current_price row_halfprice))"
    by blast
  have u: "new_price row_halfprice = None
      \<and> \<not> truthy_val (map_of (extra row_halfprice) ''new_price_shopify'')"
    by (simp add: row_halfprice_def truthy_val_def)
  from shopify_price_column [of row_halfprice "Fin 40" Markup 0] u
  have 3: "Variant_Price (shopify_of row_halfprice) = None"
    by blast
  from c n 1 2 3 4 show ?thesis by (simp add: row_halfprice_def)
qed

end
